theory Spec2Isabelle
  imports Complex_Main "HOL-Library.AList"
begin

section \<open>Numbers and strings of the runtime\<close>

text \<open>
  The numeric fields of a token hold finite numbers: the source clients fill them with
  \<^verbatim>\<open>parseFloat(..) || 0\<close>, sums and quotients by a non-zero divisor, and the cache
  stores them as JSON, which has neither NaN nor an infinity. They are modelled as
  \<^typ>\<open>real\<close>; rounding of the 64-bit floating point format is not modelled.
  A quotient computed by the services can leave the finite numbers (division by zero),
  and the result of \<^verbatim>\<open>parseFloat\<close> can be NaN, so such values have the type
  \<open>number\<close>.
\<close>

datatype number = Fin real | PosInf | NegInf | NaN

text \<open>\<^verbatim>\<open>a / b\<close> on finite numbers.\<close>

definition js_div :: "real \<Rightarrow> real \<Rightarrow> number" where
  "js_div a b =
     (if b \<noteq> 0 then Fin (a / b)
      else if a > 0 then PosInf
      else if a < 0 then NegInf
      else NaN)"

text \<open>\<^verbatim>\<open>x * c\<close> for a finite \<open>c\<close>.\<close>

fun js_mul :: "number \<Rightarrow> real \<Rightarrow> number" where
  "js_mul (Fin a) c = Fin (a * c)"
| "js_mul PosInf c = (if c > 0 then PosInf else if c < 0 then NegInf else NaN)"
| "js_mul NegInf c = (if c > 0 then NegInf else if c < 0 then PosInf else NaN)"
| "js_mul NaN c = NaN"

text \<open>\<^verbatim>\<open>x > c\<close> and \<^verbatim>\<open>c < x\<close> for a finite \<open>c\<close>: every comparison with NaN is false.\<close>

fun js_gt :: "number \<Rightarrow> real \<Rightarrow> bool" where
  "js_gt (Fin a) c = (a > c)"
| "js_gt PosInf c = True"
| "js_gt NegInf c = False"
| "js_gt NaN c = False"

text \<open>\<^verbatim>\<open>v || 0\<close> for an optional finite number: \<^verbatim>\<open>undefined\<close> and \<open>0\<close> both give \<open>0\<close>.\<close>

fun or_zero :: "real option \<Rightarrow> real" where
  "or_zero None = 0"
| "or_zero (Some v) = v"

text \<open>
  \<^verbatim>\<open>String.prototype.toLowerCase\<close> on the ASCII range (token addresses are base-58
  or hexadecimal text): the letters A to Z move to a to z, every other character stays.
\<close>

definition toLowerChar :: "char \<Rightarrow> char" where
  "toLowerChar c =
     (case map_of (zip ''ABCDEFGHIJKLMNOPQRSTUVWXYZ'' ''abcdefghijklmnopqrstuvwxyz'') c of
        Some l \<Rightarrow> l
      | None \<Rightarrow> c)"

definition toLowerCase :: "string \<Rightarrow> string" where
  "toLowerCase s = map toLowerChar s"

section \<open>Data model (types/index.ts)\<close>

record Token =
  token_address :: string
  token_name :: string
  token_ticker :: string
  price_sol :: real
  market_cap_sol :: real
  volume_sol :: real
  liquidity_sol :: real
  transaction_count :: real
  price_1hr_change :: "real option"
  price_24hr_change :: "real option"
  price_7d_change :: "real option"
  protocol :: string
  dex_id :: "string option"
  pair_address :: "string option"
  price_usd :: "real option"
  fdv :: "real option"
  last_updated :: "real option"

section \<open>AggregatorService: merging\<close>

text \<open>
  \<^verbatim>\<open>mergeTokenData(token1, token2)\<close>: \<^verbatim>\<open>null\<close> is \<open>None\<close>. The object spread
  \<^verbatim>\<open>{...base, volume_sol: .., ..}\<close> is a record update of \<open>base\<close>.
\<close>

fun mergeTokenData :: "Token option \<Rightarrow> Token option \<Rightarrow> Token option" where
  "mergeTokenData None None = None"
| "mergeTokenData None (Some token2) = Some token2"
| "mergeTokenData (Some token1) None = Some token1"
| "mergeTokenData (Some token1) (Some token2) =
     (let base = (if price_sol token1 > 0 then token1 else token2);
          supplement = (if price_sol token1 > 0 then token2 else token1)
      in Some (base\<lparr>
           volume_sol := volume_sol base + volume_sol supplement,
           liquidity_sol := max (liquidity_sol base) (liquidity_sol supplement),
           transaction_count := max (transaction_count base) (transaction_count supplement),
           last_updated :=
             Some (max (or_zero (last_updated base)) (or_zero (last_updated supplement)))\<rparr>))"

text \<open>
  \<^verbatim>\<open>mergeAndDeduplicateTokens\<close>. A \<^verbatim>\<open>Map\<close> iterates in the order in which its keys
  were first inserted, and \<^verbatim>\<open>set\<close> on a present key keeps the key's place: this is
  \<^const>\<open>AList.update\<close> on an association list. \<open>mergeLoop\<close> is the \<^verbatim>\<open>for .. of\<close>
  loop with the map as it stands; the non-null assertion \<^verbatim>\<open>!\<close> on the merge of two
  present tokens is \<^const>\<open>the\<close> (see \<open>mergeTokenData_present\<close>).
\<close>

fun mergeLoop :: "(string \<times> Token) list \<Rightarrow> Token list \<Rightarrow> (string \<times> Token) list" where
  "mergeLoop tokenMap [] = tokenMap"
| "mergeLoop tokenMap (token # rest) =
     (let key = toLowerCase (token_address token) in
      case map_of tokenMap key of
        None \<Rightarrow> mergeLoop (AList.update key token tokenMap) rest
      | Some existing \<Rightarrow>
          mergeLoop
            (AList.update key (the (mergeTokenData (Some existing) (Some token))) tokenMap)
            rest)"

definition mergeAndDeduplicateTokens :: "Token list \<Rightarrow> Token list" where
  "mergeAndDeduplicateTokens tokens = map snd (mergeLoop [] tokens)"

text \<open>
  The invariant of the loop: the keys of the map are distinct, and every token is stored
  under its own lowercased address.
\<close>

definition keyed :: "(string \<times> Token) list \<Rightarrow> bool" where
  "keyed m =
     (distinct (map fst m)
      \<and> (\<forall>k v. map_of m k = Some v \<longrightarrow> toLowerCase (token_address v) = k))"

section \<open>CacheService, as the aggregator uses it\<close>

text \<open>
  The aggregator reads and writes token lists under its own keys. The backing store is a
  map from keys to the stored lists; serialisation to JSON and back returns the list that
  was stored. When the client is not connected, or the store raises, \<^verbatim>\<open>get\<close> answers
  \<^verbatim>\<open>null\<close> and \<^verbatim>\<open>set\<close> answers \<^verbatim>\<open>false\<close>: no cache operation throws. Expiry of
  an entry after its time to live is an action of the store and is not modelled.
\<close>

record CacheService =
  isConnected :: bool
  store :: "string \<rightharpoonup> Token list"

definition cache_get :: "CacheService \<Rightarrow> string \<Rightarrow> Token list option" where
  "cache_get cs key = (if \<not> isConnected cs then None else store cs key)"

definition cache_set :: "CacheService \<Rightarrow> string \<Rightarrow> Token list \<Rightarrow> bool \<times> CacheService" where
  "cache_set cs key v =
     (if \<not> isConnected cs then (False, cs)
      else (True, cs\<lparr>store := (store cs)(key \<mapsto> v)\<rparr>))"

section \<open>AggregatorService: search\<close>

text \<open>
  A source client is the outcome of its \<^verbatim>\<open>searchTokens\<close> promise for a query:
  \<open>Inl\<close> the rejection, \<open>Inr\<close> the tokens. \<^verbatim>\<open>Promise.allSettled\<close> never rejects.
  A thrown value is an \<open>error\<close>: the failure of a source, or the controller's
  \<^verbatim>\<open>new AppError(statusCode, code, message)\<close>.
\<close>

datatype error = SourceError string | AppError int string string

type_synonym SourceClient = "string \<Rightarrow> error + Token list"

definition CACHE_PREFIX :: string where
  "CACHE_PREFIX = ''aggregated:''"

definition searchTokens ::
  "CacheService \<Rightarrow> SourceClient \<Rightarrow> SourceClient \<Rightarrow> string
     \<Rightarrow> (error + Token list) \<times> CacheService" where
  "searchTokens cs dexScreenerAPI jupiterAPI query =
     (let cacheKey = CACHE_PREFIX @ ''search:'' @ query in
      case cache_get cs cacheKey of
        Some cached \<Rightarrow> (Inr cached, cs)
      | None \<Rightarrow>
          (let dexTokens = (case dexScreenerAPI query of Inr v \<Rightarrow> v | Inl _ \<Rightarrow> []);
               jupTokens = (case jupiterAPI query of Inr v \<Rightarrow> v | Inl _ \<Rightarrow> []);
               mergedTokens = mergeAndDeduplicateTokens (dexTokens @ jupTokens)
           in (Inr mergedTokens, snd (cache_set cs cacheKey mergedTokens))))"

section \<open>AggregatorService: filter, sort, paginate\<close>

text \<open>\<^verbatim>\<open>v < m\<close> for a finite \<open>v\<close> and any number \<open>m\<close>.\<close>

fun js_lt :: "real \<Rightarrow> number \<Rightarrow> bool" where
  "js_lt v (Fin m) = (v < m)"
| "js_lt v PosInf = True"
| "js_lt v NegInf = False"
| "js_lt v NaN = False"

definition keepToken :: "string \<Rightarrow> number \<Rightarrow> Token \<Rightarrow> bool" where
  "keepToken period minVolume token =
     (if js_lt (volume_sol token) minVolume then False
      else if period = ''1h'' \<and> price_1hr_change token = None then False
      else True)"

definition applyFilters :: "Token list \<Rightarrow> string \<Rightarrow> number \<Rightarrow> Token list" where
  "applyFilters tokens period minVolume = filter (keepToken period minVolume) tokens"

text \<open>
  \<^verbatim>\<open>sortTokens\<close>. \<open>sortValue\<close> is the \<^verbatim>\<open>switch\<close> that picks the compared number.
  \<^verbatim>\<open>Array.prototype.sort\<close> is a stable sort; with the comparator \<^verbatim>\<open>aValue - bValue\<close>
  it orders by ascending value, with \<^verbatim>\<open>bValue - aValue\<close> by descending value, which is
  ascending order of the negated value.
\<close>

definition sortValue :: "string \<Rightarrow> Token \<Rightarrow> real" where
  "sortValue sortBy a =
     (if sortBy = ''volume'' then volume_sol a
      else if sortBy = ''price_change'' then or_zero (price_24hr_change a)
      else if sortBy = ''market_cap'' then market_cap_sol a
      else if sortBy = ''liquidity'' then liquidity_sol a
      else volume_sol a)"

definition sortTokens :: "Token list \<Rightarrow> string \<Rightarrow> string \<Rightarrow> Token list" where
  "sortTokens tokens sortBy ord =
     (if ord = ''asc'' then sort_key (sortValue sortBy) tokens
      else sort_key (\<lambda>t. - sortValue sortBy t) tokens)"

text \<open>
  The numbers of the pagination are integers or NaN: \<^verbatim>\<open>limit\<close> is the result of
  \<^verbatim>\<open>parseInt\<close> in the controller and the literals 30 and 50 in the broadcaster, the
  start index is a result of \<^verbatim>\<open>parseInt\<close>.
\<close>

datatype jsint = JInt int | JNaN

definition isWhiteSpace :: "char \<Rightarrow> bool" where
  "isWhiteSpace c = (of_char c \<in> {9::nat, 10, 11, 12, 13, 32})"

definition isDigit :: "char \<Rightarrow> bool" where
  "isDigit c = ((48::nat) \<le> of_char c \<and> of_char c \<le> (57::nat))"

definition digitValue :: "char \<Rightarrow> nat" where
  "digitValue c = of_char c - 48"

text \<open>
  \<^verbatim>\<open>parseInt(s, 10)\<close>: leading white space (here: of the ASCII range) is skipped,
  one sign is read, the longest run of decimal digits is the value, anything after it is
  ignored; no digit gives NaN.
\<close>

definition parseInt :: "string \<Rightarrow> jsint" where
  "parseInt s =
     (let t = dropWhile isWhiteSpace s;
          negative = (t \<noteq> [] \<and> hd t = CHR ''-'');
          u = (if t \<noteq> [] \<and> (hd t = CHR ''-'' \<or> hd t = CHR ''+'') then tl t else t);
          ds = takeWhile isDigit u;
          n = int (foldl (\<lambda>a c. 10 * a + digitValue c) 0 ds)
      in if ds = [] then JNaN else JInt (if negative then - n else n))"

text \<open>\<^verbatim>\<open>Number.prototype.toString\<close> on an integer: decimal digits, a minus sign first.\<close>

fun digitsOf :: "nat \<Rightarrow> string" where
  "digitsOf n =
     (if n < 10 then [''0123456789'' ! n]
      else digitsOf (n div 10) @ [''0123456789'' ! (n mod 10)])"

declare digitsOf.simps [simp del]

definition toString :: "int \<Rightarrow> string" where
  "toString i = (if i < 0 then CHR ''-'' # digitsOf (nat (- i)) else digitsOf (nat i))"

fun js_add :: "jsint \<Rightarrow> jsint \<Rightarrow> jsint" where
  "js_add (JInt a) (JInt b) = JInt (a + b)"
| "js_add _ _ = JNaN"

text \<open>
  \<^verbatim>\<open>Array.prototype.slice(start, end)\<close>: NaN counts as 0, a negative index counts
  from the end of the array, and both indices are clamped to the array.
\<close>

fun toIntegerOrInfinity :: "jsint \<Rightarrow> int" where
  "toIntegerOrInfinity JNaN = 0"
| "toIntegerOrInfinity (JInt i) = i"

definition relativeIndex :: "int \<Rightarrow> int \<Rightarrow> nat" where
  "relativeIndex len i = nat (if i < 0 then max (len + i) 0 else min i len)"

definition slice :: "'a list \<Rightarrow> jsint \<Rightarrow> jsint \<Rightarrow> 'a list" where
  "slice xs start stop =
     (let len = int (length xs);
          k = relativeIndex len (toIntegerOrInfinity start);
          final = relativeIndex len (toIntegerOrInfinity stop)
      in take (final - k) (drop k xs))"

record TokenQuery =
  limit :: "jsint option"
  cursor :: "string option"
  sortBy :: "string option"
  order :: "string option"
  period :: "string option"
  search :: "string option"
  minVolume :: "number option"

record Pagination =
  nextCursor :: "string option"
  total :: nat
  pg_limit :: jsint

record PaginatedResponse =
  data :: "Token list"
  pagination :: Pagination

text \<open>A destructuring default \<^verbatim>\<open>{ x = d } = query\<close> applies to \<^verbatim>\<open>undefined\<close> only.\<close>

fun orDefault :: "'a option \<Rightarrow> 'a \<Rightarrow> 'a" where
  "orDefault None d = d"
| "orDefault (Some v) d = v"

text \<open>
  The part of \<^verbatim>\<open>getFilteredTokens\<close> after the base token set is resolved:
  \<open>filteredTokens\<close> is the local of that name after filtering and sorting,
  \<open>startIndex\<close> is \<^verbatim>\<open>cursor ? parseInt(cursor, 10) : 0\<close> (the empty string is falsy),
  \<open>paginate\<close> cuts the page and builds the response.
\<close>

definition filteredTokens :: "Token list \<Rightarrow> TokenQuery \<Rightarrow> Token list" where
  "filteredTokens tokens query =
     sortTokens
       (applyFilters tokens (orDefault (period query) ''24h'') (orDefault (minVolume query) (Fin 0)))
       (orDefault (sortBy query) ''volume'')
       (orDefault (order query) ''desc'')"

definition startIndex :: "string option \<Rightarrow> jsint" where
  "startIndex c = (case c of None \<Rightarrow> JInt 0 | Some s \<Rightarrow> if s = [] then JInt 0 else parseInt s)"

definition paginate :: "Token list \<Rightarrow> TokenQuery \<Rightarrow> PaginatedResponse" where
  "paginate tokens query =
     (let limit' = orDefault (limit query) (JInt 30);
          sorted = filteredTokens tokens query;
          endIndex = js_add (startIndex (cursor query)) limit';
          paginatedTokens = slice sorted (startIndex (cursor query)) endIndex
      in \<lparr>data = paginatedTokens,
          pagination = \<lparr>
            nextCursor = (case endIndex of
                            JInt e \<Rightarrow> if e < int (length sorted) then Some (toString e) else None
                          | JNaN \<Rightarrow> None),
            total = length sorted,
            pg_limit = limit'\<rparr>\<rparr>)"

text \<open>
  \<^verbatim>\<open>getFilteredTokens\<close>: the base token set is the search result when a search
  string is given, else the cached popular list, else the tokens DexScreener returns for
  \<^verbatim>\<open>'SOL'\<close>; a rejection of that fetch is logged and thrown on.
\<close>

definition resolveTokens ::
  "CacheService \<Rightarrow> SourceClient \<Rightarrow> SourceClient \<Rightarrow> TokenQuery
     \<Rightarrow> (error + Token list) \<times> CacheService" where
  "resolveTokens cs dexScreenerAPI jupiterAPI query =
     (let search' = orDefault (search query) [] in
      if search' \<noteq> [] then searchTokens cs dexScreenerAPI jupiterAPI search'
      else
        (let cacheKey = CACHE_PREFIX @ ''popular'' in
         case cache_get cs cacheKey of
           Some cached \<Rightarrow> (Inr cached, cs)
         | None \<Rightarrow>
             (case dexScreenerAPI ''SOL'' of
                Inl e \<Rightarrow> (Inl e, cs)
              | Inr tokens \<Rightarrow> (Inr tokens, snd (cache_set cs cacheKey tokens)))))"

definition getFilteredTokens ::
  "CacheService \<Rightarrow> SourceClient \<Rightarrow> SourceClient \<Rightarrow> TokenQuery
     \<Rightarrow> (error + PaginatedResponse) \<times> CacheService" where
  "getFilteredTokens cs dexScreenerAPI jupiterAPI query =
     (case resolveTokens cs dexScreenerAPI jupiterAPI query of
        (Inl e, cs') \<Rightarrow> (Inl e, cs')
      | (Inr tokens, cs') \<Rightarrow> (Inr (paginate tokens query), cs'))"

section \<open>TokenController.getTokens\<close>

text \<open>
  The query string of the request: a parameter is a string or is missing. The controller
  applies its defaults, parses \<^verbatim>\<open>limit\<close> and \<^verbatim>\<open>minVolume\<close>, checks the four
  parameters and throws the first violation; otherwise it calls
  \<^verbatim>\<open>aggregatorService.getFilteredTokens\<close> with the query built here.
  \<open>getTokens_query\<close> is the controller up to that call: \<open>Inl\<close> is the error thrown
  before the aggregator is reached, \<open>Inr\<close> the argument of the call.
  \<^verbatim>\<open>parseFloat\<close> is a parameter.
\<close>

record ReqQuery =
  rq_limit :: "string option"
  rq_cursor :: "string option"
  rq_sortBy :: "string option"
  rq_order :: "string option"
  rq_period :: "string option"
  rq_search :: "string option"
  rq_minVolume :: "string option"

text \<open>\<^verbatim>\<open>parsedLimit < 1 || parsedLimit > 100\<close>: both comparisons are false on NaN.\<close>

fun limitOutOfRange :: "jsint \<Rightarrow> bool" where
  "limitOutOfRange (JInt n) = (n < 1 \<or> n > 100)"
| "limitOutOfRange JNaN = False"

definition getTokens_query :: "(string \<Rightarrow> number) \<Rightarrow> ReqQuery \<Rightarrow> error + TokenQuery" where
  "getTokens_query parseFloat q =
     (let limit' = orDefault (rq_limit q) ''30'';
          sortBy' = orDefault (rq_sortBy q) ''volume'';
          order' = orDefault (rq_order q) ''desc'';
          period' = orDefault (rq_period q) ''24h'';
          search' = orDefault (rq_search q) [];
          minVolume' = orDefault (rq_minVolume q) ''0'';
          parsedLimit = parseInt limit';
          parsedMinVolume = parseFloat minVolume'
      in if limitOutOfRange parsedLimit
         then Inl (AppError 400 ''INVALID_LIMIT'' ''Limit must be between 1 and 100'')
         else if sortBy' \<notin> set [''volume'', ''price_change'', ''market_cap'', ''liquidity'']
         then Inl (AppError 400 ''INVALID_SORT_BY'' ''Invalid sortBy parameter'')
         else if order' \<notin> set [''asc'', ''desc'']
         then Inl (AppError 400 ''INVALID_ORDER'' ''Order must be asc or desc'')
         else if period' \<notin> set [''1h'', ''24h'', ''7d'']
         then Inl (AppError 400 ''INVALID_PERIOD'' ''Period must be 1h, 24h, or 7d'')
         else Inr \<lparr>limit = Some parsedLimit, cursor = rq_cursor q, sortBy = Some sortBy',
                   order = Some order', period = Some period', search = Some search',
                   minVolume = Some parsedMinVolume\<rparr>)"

text \<open>
  \<^verbatim>\<open>errorHandler\<close>: the body of the error response (code, message, statusCode).
\<close>

record ApiError =
  code :: string
  message :: string
  statusCode :: int

fun errorHandler :: "error \<Rightarrow> ApiError" where
  "errorHandler (AppError sc c m) = \<lparr>code = c, message = m, statusCode = sc\<rparr>"
| "errorHandler (SourceError m) =
     \<lparr>code = ''INTERNAL_SERVER_ERROR'', message = ''An unexpected error occurred'',
      statusCode = 500\<rparr>"

datatype ApiResponse = Success PaginatedResponse | Failure ApiError

definition getTokens ::
  "(string \<Rightarrow> number) \<Rightarrow> CacheService \<Rightarrow> SourceClient \<Rightarrow> SourceClient \<Rightarrow> ReqQuery
     \<Rightarrow> ApiResponse \<times> CacheService" where
  "getTokens parseFloat cs dexScreenerAPI jupiterAPI q =
     (case getTokens_query parseFloat q of
        Inl e \<Rightarrow> (Failure (errorHandler e), cs)
      | Inr query \<Rightarrow>
          (case getFilteredTokens cs dexScreenerAPI jupiterAPI query of
             (Inl e, cs') \<Rightarrow> (Failure (errorHandler e), cs')
           | (Inr result, cs') \<Rightarrow> (Success result, cs')))"

section \<open>RateLimiter\<close>

text \<open>
  \<^verbatim>\<open>Date.now()\<close> is the parameter \<open>now\<close> of every method, in milliseconds. Every
  method returns its result and the limiter after the call.
\<close>

record RateLimitInfo =
  requests :: int
  windowStart :: int
  blocked :: bool

record RateLimiter =
  requestCounts :: "string \<rightharpoonup> RateLimitInfo"
  maxRequests :: int
  windowMs :: int

definition canMakeRequest :: "int \<Rightarrow> string \<Rightarrow> RateLimiter \<Rightarrow> bool \<times> RateLimiter" where
  "canMakeRequest now identifier rl =
     (case requestCounts rl identifier of
        None \<Rightarrow>
          (True, rl\<lparr>requestCounts := (requestCounts rl)(identifier \<mapsto>
                   \<lparr>requests = 1, windowStart = now, blocked = False\<rparr>)\<rparr>)
      | Some info \<Rightarrow>
          if now - windowStart info \<ge> windowMs rl
          then (True, rl\<lparr>requestCounts := (requestCounts rl)(identifier \<mapsto>
                   \<lparr>requests = 1, windowStart = now, blocked = False\<rparr>)\<rparr>)
          else if requests info \<ge> maxRequests rl
          then (False, rl\<lparr>requestCounts := (requestCounts rl)(identifier \<mapsto>
                   info\<lparr>blocked := True\<rparr>)\<rparr>)
          else (True, rl\<lparr>requestCounts := (requestCounts rl)(identifier \<mapsto>
                   info\<lparr>requests := requests info + 1\<rparr>)\<rparr>))"

definition getRemainingRequests :: "int \<Rightarrow> string \<Rightarrow> RateLimiter \<Rightarrow> int \<times> RateLimiter" where
  "getRemainingRequests now identifier rl =
     (case requestCounts rl identifier of
        None \<Rightarrow> (maxRequests rl, rl)
      | Some info \<Rightarrow>
          if now - windowStart info \<ge> windowMs rl then (maxRequests rl, rl)
          else (max 0 (maxRequests rl - requests info), rl))"

definition getResetTime :: "int \<Rightarrow> string \<Rightarrow> RateLimiter \<Rightarrow> int \<times> RateLimiter" where
  "getResetTime now identifier rl =
     (case requestCounts rl identifier of
        None \<Rightarrow> (now, rl)
      | Some info \<Rightarrow> (windowStart info + windowMs rl, rl))"

text \<open>
  A run of admission checks for one identifier, one per time of the list, each on the
  limiter the call before it left: the answers in order, and the limiter at the end.
\<close>

fun admissions :: "int list \<Rightarrow> string \<Rightarrow> RateLimiter \<Rightarrow> bool list \<times> RateLimiter" where
  "admissions [] identifier rl = ([], rl)"
| "admissions (now # later) identifier rl =
     (let (ok, rl') = canMakeRequest now identifier rl;
          (oks, rl'') = admissions later identifier rl'
      in (ok # oks, rl''))"

section \<open>WebSocketService: the broadcast cycle\<close>

record PriceUpdateEvent =
  pu_token_address :: string
  old_price :: real
  new_price :: real
  change_percent :: number

record VolumeSpike =
  vs_token_address :: string
  old_volume :: real
  new_volume :: real
  spike_percent :: number

text \<open>An emitted event, by its type, with its data; the time stamp is left out.\<close>

datatype WebSocketEvent =
  new_token Token
| tokens_updated "Token list"
| price_update "PriceUpdateEvent list"
| volume_spike "VolumeSpike list"

text \<open>
  The state of the loop of \<^verbatim>\<open>fetchAndBroadcastUpdates\<close>: the service's
  \<^verbatim>\<open>previousTokenData\<close>, the four locals of the cycle and the events emitted so far.
  The fetched tokens are distinct objects, and \<^verbatim>\<open>updates.includes(currentToken)\<close>
  compares object identity: an element of \<open>updates\<close> is a fetched token with its position
  in the fetched array, which identifies the object.
\<close>

record Cycle =
  previousTokenData :: "string \<rightharpoonup> Token"
  updates :: "(nat \<times> Token) list"
  priceUpdates :: "PriceUpdateEvent list"
  volumeSpikes :: "VolumeSpike list"
  hasChanges :: bool
  emitted :: "WebSocketEvent list"

text \<open>The price branch of the loop body.\<close>

definition checkPrice :: "Token \<Rightarrow> nat \<times> Token \<Rightarrow> Cycle \<Rightarrow> Cycle" where
  "checkPrice previous obj st =
     (let currentToken = snd obj;
          priceDiff = \<bar>price_sol currentToken - price_sol previous\<bar>;
          hasMinimalPriceChange = (priceDiff > 0.000000001)
      in if hasMinimalPriceChange
         then
           (let priceChange =
                  js_mul (js_div (price_sol currentToken - price_sol previous) (price_sol previous)) 100
            in st\<lparr>priceUpdates := priceUpdates st @
                     [\<lparr>pu_token_address = token_address currentToken,
                       old_price = price_sol previous,
                       new_price = price_sol currentToken,
                       change_percent = priceChange\<rparr>],
                  updates := updates st @ [obj],
                  hasChanges := True\<rparr>)
         else st)"

text \<open>The volume branch of the loop body.\<close>

definition checkVolume :: "Token \<Rightarrow> nat \<times> Token \<Rightarrow> Cycle \<Rightarrow> Cycle" where
  "checkVolume previous obj st =
     (let currentToken = snd obj;
          volumeDiff = \<bar>volume_sol currentToken - volume_sol previous\<bar>;
          hasMinimalVolumeChange = (volumeDiff > 0.000001)
      in if hasMinimalVolumeChange
         then
           (let volumeChange =
                  js_mul (js_div (volume_sol currentToken - volume_sol previous) (volume_sol previous)) 100;
                st' = (if js_gt volumeChange 20
                       then st\<lparr>volumeSpikes := volumeSpikes st @
                                 [\<lparr>vs_token_address = token_address currentToken,
                                   old_volume = volume_sol previous,
                                   new_volume = volume_sol currentToken,
                                   spike_percent = volumeChange\<rparr>],
                               hasChanges := True\<rparr>
                       else st)
            in if fst obj \<notin> set (map fst (updates st'))
               then st'\<lparr>updates := updates st' @ [obj]\<rparr>
               else st')
         else st)"

text \<open>One iteration of the loop, for the fetched token \<open>snd obj\<close> at position \<open>fst obj\<close>.\<close>

definition processToken :: "Cycle \<Rightarrow> nat \<times> Token \<Rightarrow> Cycle" where
  "processToken st obj =
     (let currentToken = snd obj in
      if token_address currentToken = [] then st
      else
        (case previousTokenData st (token_address currentToken) of
           None \<Rightarrow>
             st\<lparr>updates := updates st @ [obj],
                emitted := emitted st @ [new_token currentToken],
                hasChanges := True,
                previousTokenData :=
                  (previousTokenData st)(token_address currentToken \<mapsto> currentToken)\<rparr>
         | Some previous \<Rightarrow>
             (let st' = checkVolume previous obj (checkPrice previous obj st)
              in st'\<lparr>previousTokenData :=
                       (previousTokenData st')(token_address currentToken \<mapsto> currentToken)\<rparr>)))"

definition startCycle :: "(string \<rightharpoonup> Token) \<Rightarrow> Cycle" where
  "startCycle prev =
     \<lparr>previousTokenData = prev, updates = [], priceUpdates = [], volumeSpikes = [],
      hasChanges = False, emitted = []\<rparr>"

definition runCycle :: "(string \<rightharpoonup> Token) \<Rightarrow> Token list \<Rightarrow> Cycle" where
  "runCycle prev currentTokens =
     foldl processToken (startCycle prev) (enumerate 0 currentTokens)"

text \<open>
  \<^verbatim>\<open>fetchAndBroadcastUpdates\<close>, given the outcome of the aggregator's
  \<^verbatim>\<open>getFilteredTokens({limit: 50, sortBy: 'volume', order: 'desc'})\<close>: the events
  emitted in order and the snapshot map after the cycle. A rejection is caught and logged.
  The counter \<^verbatim>\<open>updateCount\<close> and the log lines have no effect on the events.
\<close>

definition fetchAndBroadcastUpdates ::
  "(string \<rightharpoonup> Token) \<Rightarrow> error + PaginatedResponse
     \<Rightarrow> WebSocketEvent list \<times> (string \<rightharpoonup> Token)" where
  "fetchAndBroadcastUpdates prev fetched =
     (case fetched of
        Inl e \<Rightarrow> ([], prev)
      | Inr tokens \<Rightarrow>
          (let st = runCycle prev (data tokens)
           in (emitted st
                 @ (if updates st \<noteq> [] then [tokens_updated (map snd (updates st))] else [])
                 @ (if priceUpdates st \<noteq> [] then [price_update (priceUpdates st)] else [])
                 @ (if volumeSpikes st \<noteq> [] then [volume_spike (volumeSpikes st)] else []),
               previousTokenData st)))"

text \<open>
  The entries the two branches push for the current token \<open>t\<close> and its snapshot, and the
  percent change of the volume \<^verbatim>\<open>(new - old) / old * 100\<close>, named for the statements
  about the cycle.
\<close>

definition priceEntry :: "Token \<Rightarrow> Token \<Rightarrow> PriceUpdateEvent" where
  "priceEntry previous t =
     \<lparr>pu_token_address = token_address t, old_price = price_sol previous,
      new_price = price_sol t,
      change_percent = js_mul (js_div (price_sol t - price_sol previous) (price_sol previous)) 100\<rparr>"

definition volumePercent :: "Token \<Rightarrow> Token \<Rightarrow> number" where
  "volumePercent previous t =
     js_mul (js_div (volume_sol t - volume_sol previous) (volume_sol previous)) 100"

definition spikeEntry :: "Token \<Rightarrow> Token \<Rightarrow> VolumeSpike" where
  "spikeEntry previous t =
     \<lparr>vs_token_address = token_address t, old_volume = volume_sol previous,
      new_volume = volume_sol t, spike_percent = volumePercent previous t\<rparr>"

section \<open>Test data\<close>

text \<open>A token with the given address, name, price and volume, every other field empty.\<close>

definition sampleToken :: "string \<Rightarrow> string \<Rightarrow> real \<Rightarrow> real \<Rightarrow> Token" where
  "sampleToken address name price volume =
     \<lparr>token_address = address, token_name = name, token_ticker = ''TKN'',
      price_sol = price, market_cap_sol = 0, volume_sol = volume, liquidity_sol = 0,
      transaction_count = 0, price_1hr_change = None, price_24hr_change = None,
      price_7d_change = None, protocol = ''raydium'', dex_id = None, pair_address = None,
      price_usd = None, fdv = None, last_updated = None\<rparr>"

text \<open>A query with no parameter set, and a cache whose client is not connected.\<close>

definition noQuery :: TokenQuery where
  "noQuery = \<lparr>limit = None, cursor = None, sortBy = None, order = None, period = None,
              search = None, minVolume = None\<rparr>"

definition offlineCache :: CacheService where
  "offlineCache = \<lparr>isConnected = False, store = Map.empty\<rparr>"

text \<open>
  DexScreener answering every search with two pairs of one base token (a token traded
  on two exchanges), and a source whose search rejects.
\<close>

definition twoPairs :: SourceClient where
  "twoPairs query = Inr [sampleToken ''So1'' ''Wrapped SOL'' 1 20, sampleToken ''So1'' ''Wrapped SOL'' 1 10]"

definition failingSource :: SourceClient where
  "failingSource query = Inl (SourceError ''timeout'')"

text \<open>A source answering every search with three tokens of volumes 10, 30 and 20.\<close>

definition threeTokens :: SourceClient where
  "threeTokens query = Inr [sampleToken ''So1'' ''A'' 1 10, sampleToken ''So2'' ''B'' 1 30,
                            sampleToken ''So3'' ''C'' 1 20]"

text \<open>A request with no query parameter, and a limiter that has seen no request.\<close>

definition noRequest :: ReqQuery where
  "noRequest = \<lparr>rq_limit = None, rq_cursor = None, rq_sortBy = None, rq_order = None,
                rq_period = None, rq_search = None, rq_minVolume = None\<rparr>"

definition limiter :: "int \<Rightarrow> int \<Rightarrow> RateLimiter" where
  "limiter maxReq win = \<lparr>requestCounts = Map.empty, maxRequests = maxReq, windowMs = win\<rparr>"

text \<open>
  The reading of "the slice \<open>[cursor, cursor + limit)\<close>" as an interval of positions:
  the elements whose position \<open>i\<close> satisfies \<open>cursor \<le> i < cursor + limit\<close>, in order.
\<close>

definition intervalSlice :: "'a list \<Rightarrow> int \<Rightarrow> int \<Rightarrow> 'a list" where
  "intervalSlice xs c l = map snd (filter (\<lambda>(i, x). c \<le> int i \<and> int i < c + l) (enumerate 0 xs))"

section \<open>Properties\<close>

subsection \<open>Merging two records\<close>

lemma mergeTokenData_present:
  "mergeTokenData (Some token1) (Some token2) \<noteq> None"
  by (simp add: Let_def)

lemma merged_address:
  "token_address (the (mergeTokenData (Some a) (Some b)))
     = (if price_sol a > 0 then token_address a else token_address b)"
  by (simp add: Let_def)

text \<open>
  Claim C1, as the code has it. The merge of two present records has the sum of the two
  volumes, the larger liquidity and transaction count, and as \<open>last_updated\<close> the larger
  of the two time stamps, a missing one counting as 0. Every other field comes from the
  first record when its price is positive, and from the second record otherwise: also
  when neither price is positive.
\<close>

theorem mergeTokenData_fields:
  "\<exists>m. mergeTokenData (Some t1) (Some t2) = Some m
     \<and> volume_sol m = volume_sol t1 + volume_sol t2
     \<and> liquidity_sol m = max (liquidity_sol t1) (liquidity_sol t2)
     \<and> transaction_count m = max (transaction_count t1) (transaction_count t2)
     \<and> last_updated m = Some (max (or_zero (last_updated t1)) (or_zero (last_updated t2)))
     \<and> (let base = (if price_sol t1 > 0 then t1 else t2) in
          token_address m = token_address base \<and> token_name m = token_name base
        \<and> token_ticker m = token_ticker base \<and> price_sol m = price_sol base
        \<and> market_cap_sol m = market_cap_sol base
        \<and> price_1hr_change m = price_1hr_change base
        \<and> price_24hr_change m = price_24hr_change base
        \<and> price_7d_change m = price_7d_change base
        \<and> protocol m = protocol base \<and> dex_id m = dex_id base
        \<and> pair_address m = pair_address base \<and> price_usd m = price_usd base
        \<and> fdv m = fdv base)"
  by (simp add: Let_def max.commute add.commute)

theorem mergeTokenData_fields_witness:
  "\<exists>m. mergeTokenData (Some (sampleToken ''So1'' ''A'' 0 10)) (Some (sampleToken ''So1'' ''B'' 2 5))
          = Some m
     \<and> volume_sol m = 15 \<and> token_name m = ''B'' \<and> price_sol m = 2 \<and> last_updated m = Some 0"
  using mergeTokenData_fields [of "sampleToken ''So1'' ''A'' 0 10" "sampleToken ''So1'' ''B'' 2 5"]
  by (simp add: sampleToken_def Let_def)

text \<open>
  Two records of one address, neither with a positive price: the name of the merged
  record is the second record's, not the first's.
\<close>

theorem mergeTokenData_neither_positive:
  "\<not> price_sol (sampleToken ''So1'' ''A'' 0 10) > 0
   \<and> \<not> price_sol (sampleToken ''So1'' ''B'' 0 5) > 0
   \<and> token_address (sampleToken ''So1'' ''A'' 0 10) = token_address (sampleToken ''So1'' ''B'' 0 5)
   \<and> map_option token_name
        (mergeTokenData (Some (sampleToken ''So1'' ''A'' 0 10)) (Some (sampleToken ''So1'' ''B'' 0 5)))
       = Some ''B''
   \<and> token_name (sampleToken ''So1'' ''A'' 0 10) \<noteq> ''B''"
  by (simp add: sampleToken_def)

text \<open>
  Claim C2, as the code has it. Merging a record with itself doubles its volume and sets
  \<open>last_updated\<close> to the record's time stamp, or to 0 when it has none; every other field
  is the record's. A list that holds the record twice is merged into that one record.
\<close>

theorem mergeTokenData_self:
  "mergeTokenData (Some t) (Some t)
     = Some (t\<lparr>volume_sol := 2 * volume_sol t,
               last_updated := Some (or_zero (last_updated t))\<rparr>)
   \<and> mergeAndDeduplicateTokens [t, t]
     = [t\<lparr>volume_sol := 2 * volume_sol t,
          last_updated := Some (or_zero (last_updated t))\<rparr>]"
  by (cases t) (simp add: Let_def mergeAndDeduplicateTokens_def)

theorem mergeTokenData_self_witness:
  "map volume_sol (mergeAndDeduplicateTokens
      [sampleToken ''So1'' ''A'' 1 10, sampleToken ''So1'' ''A'' 1 10]) = [20]"
  using mergeTokenData_self [of "sampleToken ''So1'' ''A'' 1 10"]
  by (simp add: sampleToken_def)

text \<open>A record of volume 10 merged with itself is not the record: the volume is 20.\<close>

theorem mergeTokenData_self_not_idempotent:
  "mergeTokenData (Some (sampleToken ''So1'' ''A'' 1 10)) (Some (sampleToken ''So1'' ''A'' 1 10))
     \<noteq> Some (sampleToken ''So1'' ''A'' 1 10)
   \<and> mergeAndDeduplicateTokens [sampleToken ''So1'' ''A'' 1 10, sampleToken ''So1'' ''A'' 1 10]
     \<noteq> [sampleToken ''So1'' ''A'' 1 10]
   \<and> map volume_sol (mergeAndDeduplicateTokens
        [sampleToken ''So1'' ''A'' 1 10, sampleToken ''So1'' ''A'' 1 10]) = [20]
   \<and> volume_sol (sampleToken ''So1'' ''A'' 1 10) = 10"
  by (simp add: sampleToken_def mergeAndDeduplicateTokens_def Let_def)

subsection \<open>One token per address\<close>

lemma keyed_update:
  "keyed m \<Longrightarrow> toLowerCase (token_address t) = k \<Longrightarrow> keyed (AList.update k t m)"
  by (auto simp: keyed_def distinct_update update_conv')

lemma keyed_mergeLoop: "keyed m \<Longrightarrow> keyed (mergeLoop m ts)"
proof (induction ts arbitrary: m)
  case Nil
  then show ?case by simp
next
  case (Cons t ts)
  show ?case
  proof (cases "map_of m (toLowerCase (token_address t))")
    case None
    then show ?thesis using Cons by (simp add: keyed_update)
  next
    case (Some e)
    have "toLowerCase (token_address e) = toLowerCase (token_address t)"
      using Cons.prems Some by (simp add: keyed_def)
    then have "toLowerCase (token_address (the (mergeTokenData (Some e) (Some t))))
                 = toLowerCase (token_address t)"
      by (simp add: merged_address)
    then show ?thesis using Cons Some by (simp add: keyed_update)
  qed
qed

lemma keyed_addresses:
  "keyed m \<Longrightarrow> map (\<lambda>t. toLowerCase (token_address t)) (map snd m) = map fst m"
  by (auto simp: keyed_def)

text \<open>The merge-and-deduplicate step returns at most one token per lowercased address.\<close>

lemma mergeAndDeduplicateTokens_distinct:
  "distinct (map (\<lambda>t. toLowerCase (token_address t)) (mergeAndDeduplicateTokens tokens))"
proof -
  have k: "keyed (mergeLoop [] tokens)"
    by (rule keyed_mergeLoop) (simp add: keyed_def)
  then show ?thesis
    unfolding mergeAndDeduplicateTokens_def
    by (simp only: keyed_addresses) (simp add: keyed_def)
qed

text \<open>So does a search that misses the cache.\<close>

lemma searchTokens_distinct:
  assumes "cache_get cs (CACHE_PREFIX @ ''search:'' @ query) = None"
  shows "\<exists>ts. fst (searchTokens cs dex jup query) = Inr ts
           \<and> distinct (map (\<lambda>t. toLowerCase (token_address t)) ts)"
  using assms by (simp add: searchTokens_def Let_def mergeAndDeduplicateTokens_distinct)

text \<open>
  Claim C3 fails on the popular path of \<^verbatim>\<open>getFilteredTokens\<close>: with no search string
  and no cached list, the tokens DexScreener returns are used as they are. Two pairs of
  one base token give a base token set, and a page, with two tokens of one address.
\<close>

theorem getFilteredTokens_popular_duplicates:
  "\<exists>r. fst (getFilteredTokens offlineCache twoPairs failingSource noQuery) = Inr r
     \<and> map (\<lambda>t. toLowerCase (token_address t)) (data r) = [''so1'', ''so1'']
     \<and> \<not> distinct (map (\<lambda>t. toLowerCase (token_address t)) (data r))"
  by (simp add: getFilteredTokens_def resolveTokens_def noQuery_def offlineCache_def
      twoPairs_def cache_get_def cache_set_def paginate_def filteredTokens_def
      applyFilters_def keepToken_def sortTokens_def sortValue_def startIndex_def slice_def
      relativeIndex_def sampleToken_def CACHE_PREFIX_def toLowerCase_def toLowerChar_def)

subsection \<open>Filtering\<close>

text \<open>
  Claim C6, as the code has it. \<^verbatim>\<open>applyFilters\<close> keeps, in their order, the tokens whose
  volume is not below \<open>minVolume\<close> and which, when the period is \<^verbatim>\<open>1h\<close>, report
  \<open>price_1hr_change\<close>. The periods \<^verbatim>\<open>24h\<close> and \<^verbatim>\<open>7d\<close> require no field.
\<close>

theorem applyFilters_kept:
  "applyFilters tokens per minVol
     = filter (\<lambda>t. \<not> js_lt (volume_sol t) minVol
                 \<and> (per = ''1h'' \<longrightarrow> price_1hr_change t \<noteq> None)) tokens"
  unfolding applyFilters_def keepToken_def
  by (rule filter_cong) auto

theorem applyFilters_kept_witness:
  "applyFilters [sampleToken ''So1'' ''A'' 1 10, sampleToken ''So2'' ''B'' 1 200] ''1h'' (Fin 100) = []
   \<and> applyFilters [sampleToken ''So1'' ''A'' 1 10, sampleToken ''So2'' ''B'' 1 200] ''7d'' (Fin 100)
       = [sampleToken ''So2'' ''B'' 1 200]"
  using applyFilters_kept [of "[sampleToken ''So1'' ''A'' 1 10, sampleToken ''So2'' ''B'' 1 200]"
      "''1h''" "Fin 100"]
    applyFilters_kept [of "[sampleToken ''So1'' ''A'' 1 10, sampleToken ''So2'' ''B'' 1 200]"
      "''7d''" "Fin 100"]
  by (simp add: sampleToken_def)

text \<open>
  A token that reports neither a 24 hour nor a 7 day price change is kept for the
  periods \<^verbatim>\<open>24h\<close> and \<^verbatim>\<open>7d\<close>.
\<close>

theorem applyFilters_24h_7d_keep_without_change:
  "price_24hr_change (sampleToken ''So1'' ''A'' 1 10) = None
   \<and> price_7d_change (sampleToken ''So1'' ''A'' 1 10) = None
   \<and> applyFilters [sampleToken ''So1'' ''A'' 1 10] ''24h'' (Fin 0) = [sampleToken ''So1'' ''A'' 1 10]
   \<and> applyFilters [sampleToken ''So1'' ''A'' 1 10] ''7d'' (Fin 0) = [sampleToken ''So1'' ''A'' 1 10]"
  by (simp add: applyFilters_def keepToken_def sampleToken_def)

subsection \<open>Search with a failing source\<close>

lemma mergeLoop_nonempty: "m \<noteq> [] \<or> ts \<noteq> [] \<Longrightarrow> mergeLoop m ts \<noteq> []"
  by (induction ts arbitrary: m) (auto simp: Let_def split: option.splits)

lemma mergeAndDeduplicateTokens_nonempty:
  "ts \<noteq> [] \<Longrightarrow> mergeAndDeduplicateTokens ts \<noteq> []"
  by (simp add: mergeAndDeduplicateTokens_def mergeLoop_nonempty)

text \<open>
  Claim C8. When the search misses the cache, one source rejects and the other fulfils
  with the tokens \<open>ts\<close>, \<^verbatim>\<open>searchTokens\<close> returns (it does not throw) the merged and
  deduplicated \<open>ts\<close>, which is not empty when \<open>ts\<close> is not.
\<close>

theorem searchTokens_partial_failure:
  assumes "cache_get cs (CACHE_PREFIX @ ''search:'' @ query) = None"
    and "(dex query = Inl e \<and> jup query = Inr ts) \<or> (dex query = Inr ts \<and> jup query = Inl e)"
  shows "fst (searchTokens cs dex jup query) = Inr (mergeAndDeduplicateTokens ts)
         \<and> (ts \<noteq> [] \<longrightarrow> mergeAndDeduplicateTokens ts \<noteq> [])"
  using assms by (auto simp: searchTokens_def Let_def mergeAndDeduplicateTokens_nonempty)

theorem searchTokens_partial_failure_witness:
  "cache_get offlineCache (CACHE_PREFIX @ ''search:'' @ ''SOL'') = None
   \<and> failingSource ''SOL'' = Inl (SourceError ''timeout'')
   \<and> fst (searchTokens offlineCache failingSource twoPairs ''SOL'')
       = Inr [(sampleToken ''So1'' ''Wrapped SOL'' 1 30)\<lparr>last_updated := Some 0\<rparr>]"
proof -
  have miss: "cache_get offlineCache (CACHE_PREFIX @ ''search:'' @ ''SOL'') = None"
    by (simp add: cache_get_def offlineCache_def)
  have src:
    "(failingSource ''SOL'' = Inl (SourceError ''timeout'')
        \<and> twoPairs ''SOL'' = Inr [sampleToken ''So1'' ''Wrapped SOL'' 1 20,
                                  sampleToken ''So1'' ''Wrapped SOL'' 1 10])
     \<or> (failingSource ''SOL'' = Inr [sampleToken ''So1'' ''Wrapped SOL'' 1 20,
                                      sampleToken ''So1'' ''Wrapped SOL'' 1 10]
        \<and> twoPairs ''SOL'' = Inl (SourceError ''timeout''))"
    by (simp add: failingSource_def twoPairs_def)
  show ?thesis
    using searchTokens_partial_failure [where dex = failingSource and jup = twoPairs, OF miss src]
      miss
    by (simp add: failingSource_def mergeAndDeduplicateTokens_def sampleToken_def Let_def)
qed

subsection \<open>Validation of the query parameters\<close>

lemma parseInt_abc: "parseInt ''abc'' = JNaN"
  by (simp add: parseInt_def isWhiteSpace_def isDigit_def)

text \<open>
  The controller rejects, with status 400, exactly the requests whose parsed limit is a
  number below 1 or above 100, or whose \<open>sortBy\<close>, \<open>order\<close> or \<open>period\<close> is not one of
  the listed words; a rejected request does not reach the aggregator and leaves the
  cache as it was.
\<close>

lemma getTokens_query_rejects:
  "(\<exists>c m. getTokens_query pf q = Inl (AppError 400 c m)) \<longleftrightarrow>
     (limitOutOfRange (parseInt (orDefault (rq_limit q) ''30''))
      \<or> orDefault (rq_sortBy q) ''volume''
           \<notin> {''volume'', ''price_change'', ''market_cap'', ''liquidity''}
      \<or> orDefault (rq_order q) ''desc'' \<notin> {''asc'', ''desc''}
      \<or> orDefault (rq_period q) ''24h'' \<notin> {''1h'', ''24h'', ''7d''})"
  by (simp add: getTokens_query_def Let_def)

lemma getTokens_rejected_no_call:
  "getTokens_query pf q = Inl e \<Longrightarrow>
     getTokens pf cs dex jup q = (Failure (errorHandler e), cs)"
  by (simp add: getTokens_def)

text \<open>
  Claim C9 fails for a limit that is not a number: \<^verbatim>\<open>parseInt('abc', 10)\<close> is NaN,
  both comparisons of the range check are false on NaN, and the request
  \<^verbatim>\<open>GET /api/tokens?limit=abc\<close> is passed to the aggregator with the limit NaN and
  answered with a success response.
\<close>

theorem getTokens_accepts_non_numeric_limit:
  "getTokens_query pf (noRequest\<lparr>rq_limit := Some ''abc''\<rparr>)
     = Inr \<lparr>limit = Some JNaN, cursor = None, sortBy = Some ''volume'', order = Some ''desc'',
            period = Some ''24h'', search = Some [], minVolume = Some (pf ''0'')\<rparr>
   \<and> (\<exists>r. fst (getTokens pf offlineCache twoPairs failingSource
                  (noRequest\<lparr>rq_limit := Some ''abc''\<rparr>)) = Success r)"
  by (simp add: getTokens_def getTokens_query_def noRequest_def parseInt_abc Let_def
      getFilteredTokens_def resolveTokens_def cache_get_def offlineCache_def twoPairs_def)

subsection \<open>The fixed window of the rate limiter\<close>

lemma canMakeRequest_config:
  "maxRequests (snd (canMakeRequest now ident rl)) = maxRequests rl
   \<and> windowMs (snd (canMakeRequest now ident rl)) = windowMs rl"
  by (simp add: canMakeRequest_def split: option.splits)

lemma admissions_Cons:
  "fst (admissions (t # ts) ident rl)
     = fst (canMakeRequest t ident rl) # fst (admissions ts ident (snd (canMakeRequest t ident rl)))"
  "snd (admissions (t # ts) ident rl) = snd (admissions ts ident (snd (canMakeRequest t ident rl)))"
  by (simp_all add: case_prod_beta)

lemma admissions_in_window:
  assumes "requestCounts rl ident = Some info"
    and "\<forall>t\<in>set ts. t - windowStart info < windowMs rl"
  shows "fst (admissions ts ident rl)
           = map (\<lambda>k. requests info + int k < maxRequests rl) [0..<length ts]
         \<and> (\<exists>info'. requestCounts (snd (admissions ts ident rl)) ident = Some info'
                \<and> windowStart info' = windowStart info)
         \<and> maxRequests (snd (admissions ts ident rl)) = maxRequests rl
         \<and> windowMs (snd (admissions ts ident rl)) = windowMs rl"
  using assms
proof (induction ts arbitrary: rl info)
  case Nil
  then show ?case by simp
next
  case (Cons t ts)
  have inwin: "\<not> t - windowStart info \<ge> windowMs rl" using Cons.prems(2) by simp
  have rest: "\<forall>t\<in>set ts. t - windowStart info < windowMs rl" using Cons.prems(2) by simp
  show ?case
  proof (cases "requests info \<ge> maxRequests rl")
    case True
    let ?rl' = "rl\<lparr>requestCounts := (requestCounts rl)(ident \<mapsto> info\<lparr>blocked := True\<rparr>)\<rparr>"
    have step: "canMakeRequest t ident rl = (False, ?rl')"
      using Cons.prems(1) inwin True by (simp add: canMakeRequest_def)
    have ih: "fst (admissions ts ident ?rl')
           = map (\<lambda>k. requests (info\<lparr>blocked := True\<rparr>) + int k < maxRequests ?rl') [0..<length ts]
         \<and> (\<exists>info'. requestCounts (snd (admissions ts ident ?rl')) ident = Some info'
                \<and> windowStart info' = windowStart (info\<lparr>blocked := True\<rparr>))
         \<and> maxRequests (snd (admissions ts ident ?rl')) = maxRequests ?rl'
         \<and> windowMs (snd (admissions ts ident ?rl')) = windowMs ?rl'"
      by (rule Cons.IH) (use rest in simp_all)
    show ?thesis
      using ih True by (simp add: admissions_Cons step map_upt_Suc del: upt_Suc admissions.simps)
  next
    case False
    let ?rl' = "rl\<lparr>requestCounts := (requestCounts rl)(ident \<mapsto> info\<lparr>requests := requests info + 1\<rparr>)\<rparr>"
    have step: "canMakeRequest t ident rl = (True, ?rl')"
      using Cons.prems(1) inwin False by (simp add: canMakeRequest_def)
    have ih: "fst (admissions ts ident ?rl')
           = map (\<lambda>k. requests (info\<lparr>requests := requests info + 1\<rparr>) + int k < maxRequests ?rl') [0..<length ts]
         \<and> (\<exists>info'. requestCounts (snd (admissions ts ident ?rl')) ident = Some info'
                \<and> windowStart info' = windowStart (info\<lparr>requests := requests info + 1\<rparr>))
         \<and> maxRequests (snd (admissions ts ident ?rl')) = maxRequests ?rl'
         \<and> windowMs (snd (admissions ts ident ?rl')) = windowMs ?rl'"
      by (rule Cons.IH) (use rest in simp_all)
    show ?thesis
      using ih False by (simp add: admissions_Cons step map_upt_Suc add.assoc del: upt_Suc admissions.simps)
  qed
qed

lemma canMakeRequest_fresh:
  assumes "requestCounts rl ident = None
           \<or> (\<exists>info. requestCounts rl ident = Some info \<and> t0 - windowStart info \<ge> windowMs rl)"
  shows "canMakeRequest t0 ident rl
           = (True, rl\<lparr>requestCounts := (requestCounts rl)(ident \<mapsto>
                 \<lparr>requests = 1, windowStart = t0, blocked = False\<rparr>)\<rparr>)"
  using assms by (auto simp: canMakeRequest_def)

text \<open>
  Claim C7, as the code has it, for a limiter with \<open>maxRequests \<ge> 1\<close>. The call at \<open>t0\<close>
  opens a window (the identifier has no window, or its window has expired at \<open>t0\<close>), and
  the calls at the times \<open>ts\<close> fall into that window. Then call number \<open>k\<close> of the run,
  counted from 0, is admitted exactly when \<open>k < maxRequests\<close>: the first \<open>maxRequests\<close>
  calls are admitted, the next one and all later ones in the window are rejected. A call
  at a time \<open>t'\<close> with \<open>t' - t0 \<ge> windowMs\<close> is admitted and opens a window with count 1.
\<close>

theorem fixed_window:
  assumes "1 \<le> maxRequests rl"
    and "requestCounts rl ident = None
         \<or> (\<exists>info. requestCounts rl ident = Some info \<and> t0 - windowStart info \<ge> windowMs rl)"
    and "\<forall>t\<in>set ts. t - t0 < windowMs rl"
    and "t' - t0 \<ge> windowMs rl"
  shows "fst (admissions (t0 # ts) ident rl)
           = map (\<lambda>k. int k < maxRequests rl) [0..<Suc (length ts)]
         \<and> fst (canMakeRequest t' ident (snd (admissions (t0 # ts) ident rl))) = True
         \<and> requestCounts (snd (canMakeRequest t' ident (snd (admissions (t0 # ts) ident rl)))) ident
             = Some \<lparr>requests = 1, windowStart = t', blocked = False\<rparr>"
proof -
  let ?info = "\<lparr>requests = 1, windowStart = t0, blocked = False\<rparr>"
  let ?rl1 = "rl\<lparr>requestCounts := (requestCounts rl)(ident \<mapsto> ?info)\<rparr>"
  have first: "canMakeRequest t0 ident rl = (True, ?rl1)"
    by (rule canMakeRequest_fresh) (rule assms(2))
  have run: "fst (admissions ts ident ?rl1)
           = map (\<lambda>k. requests ?info + int k < maxRequests ?rl1) [0..<length ts]
         \<and> (\<exists>info'. requestCounts (snd (admissions ts ident ?rl1)) ident = Some info'
                \<and> windowStart info' = windowStart ?info)
         \<and> maxRequests (snd (admissions ts ident ?rl1)) = maxRequests ?rl1
         \<and> windowMs (snd (admissions ts ident ?rl1)) = windowMs ?rl1"
    by (rule admissions_in_window) (use assms(3) in simp_all)
  have results: "fst (admissions (t0 # ts) ident rl)
           = map (\<lambda>k. int k < maxRequests rl) [0..<Suc (length ts)]"
    using run assms(1) by (simp add: admissions_Cons first map_upt_Suc del: upt_Suc admissions.simps)
  have state: "snd (admissions (t0 # ts) ident rl) = snd (admissions ts ident ?rl1)"
    by (simp add: admissions_Cons first del: admissions.simps)
  obtain info' where info': "requestCounts (snd (admissions ts ident ?rl1)) ident = Some info'"
    "windowStart info' = t0" using run by auto
  have win: "windowMs (snd (admissions ts ident ?rl1)) = windowMs rl" using run by simp
  have after: "canMakeRequest t' ident (snd (admissions ts ident ?rl1))
      = (True, (snd (admissions ts ident ?rl1))\<lparr>requestCounts :=
            (requestCounts (snd (admissions ts ident ?rl1)))(ident \<mapsto>
                 \<lparr>requests = 1, windowStart = t', blocked = False\<rparr>)\<rparr>)"
    by (rule canMakeRequest_fresh) (use info' win assms(4) in simp)
  show ?thesis
  proof (intro conjI)
    show "fst (admissions (t0 # ts) ident rl)
            = map (\<lambda>k. int k < maxRequests rl) [0..<Suc (length ts)]"
      by (rule results)
    show "fst (canMakeRequest t' ident (snd (admissions (t0 # ts) ident rl))) = True"
      unfolding state after by simp
    show "requestCounts (snd (canMakeRequest t' ident (snd (admissions (t0 # ts) ident rl)))) ident
            = Some \<lparr>requests = 1, windowStart = t', blocked = False\<rparr>"
      unfolding state after by simp
  qed
qed

theorem fixed_window_witness:
  "1 \<le> maxRequests (limiter 5 1000)
   \<and> requestCounts (limiter 5 1000) ''search'' = None
   \<and> list_all (\<lambda>t. t - 0 < windowMs (limiter 5 1000)) [100, 200, 300, 400, 500]
   \<and> 1000 - 0 \<ge> windowMs (limiter 5 1000)
   \<and> fst (admissions [0, 100, 200, 300, 400, 500] ''search'' (limiter 5 1000))
       = [True, True, True, True, True, False]
   \<and> fst (canMakeRequest 1000 ''search''
            (snd (admissions [0, 100, 200, 300, 400, 500] ''search'' (limiter 5 1000)))) = True"
proof -
  have a: "1 \<le> maxRequests (limiter 5 1000)" by (simp add: limiter_def)
  have b: "requestCounts (limiter 5 1000) ''search'' = None
     \<or> (\<exists>info. requestCounts (limiter 5 1000) ''search'' = Some info
           \<and> 0 - windowStart info \<ge> windowMs (limiter 5 1000))"
    by (simp add: limiter_def)
  have c: "\<forall>t\<in>set [100, 200, 300, 400, 500]. t - 0 < windowMs (limiter 5 1000)"
    by (simp add: limiter_def)
  have d: "1000 - 0 \<ge> windowMs (limiter 5 1000)" by (simp add: limiter_def)
  have e: "map (\<lambda>k. int k < maxRequests (limiter 5 1000)) [0..<Suc (length [100::int, 200, 300, 400, 500])]
     = [True, True, True, True, True, False]"
    by (simp add: limiter_def upt_rec)
  show ?thesis
    using fixed_window [OF a b c d] a c d e by (simp add: limiter_def)
qed

text \<open>
  A limiter with \<open>maxRequests = 0\<close> admits its first call: a call that opens a window is
  not checked against the limit.
\<close>

theorem limiter_zero_admits_first:
  "maxRequests (limiter 0 1000) = 0
   \<and> fst (canMakeRequest 0 ''search'' (limiter 0 1000)) = True"
  by (simp add: limiter_def canMakeRequest_def)


subsection \<open>The observers of the rate limiter\<close>

text \<open>
  Claim C10, as the code has it. \<^verbatim>\<open>getRemainingRequests\<close> and \<^verbatim>\<open>getResetTime\<close>
  leave the limiter as it is, so an admission decision after them is the decision
  without them. \<^verbatim>\<open>getRemainingRequests\<close> answers \<open>maxRequests\<close> for an identifier
  with no window or with an expired one, and for \<open>maxRequests \<ge> 0\<close> its answer is not
  negative.
\<close>

theorem observers_pure:
  "snd (getRemainingRequests now ident rl) = rl
   \<and> snd (getResetTime now ident rl) = rl
   \<and> canMakeRequest now' ident' (snd (getRemainingRequests now ident rl))
       = canMakeRequest now' ident' rl
   \<and> canMakeRequest now' ident' (snd (getResetTime now ident rl))
       = canMakeRequest now' ident' rl
   \<and> (0 \<le> maxRequests rl \<longrightarrow> 0 \<le> fst (getRemainingRequests now ident rl))
   \<and> (requestCounts rl ident = None
        \<longrightarrow> fst (getRemainingRequests now ident rl) = maxRequests rl)
   \<and> (\<forall>info. requestCounts rl ident = Some info \<and> now - windowStart info \<ge> windowMs rl
        \<longrightarrow> fst (getRemainingRequests now ident rl) = maxRequests rl)"
  by (auto simp: getRemainingRequests_def getResetTime_def split: option.splits)

theorem observers_pure_witness:
  "0 \<le> maxRequests (snd (canMakeRequest 0 ''a'' (limiter 5 1000)))
   \<and> fst (getRemainingRequests 10 ''a'' (snd (canMakeRequest 0 ''a'' (limiter 5 1000)))) = 4
   \<and> requestCounts (limiter 5 1000) ''b'' = None
   \<and> fst (getRemainingRequests 10 ''b'' (limiter 5 1000)) = 5
   \<and> fst (getRemainingRequests 1000 ''a'' (snd (canMakeRequest 0 ''a'' (limiter 5 1000)))) = 5"
  using observers_pure [of 10 "''a''" "snd (canMakeRequest 0 ''a'' (limiter 5 1000))" 10 "''a''"]
    observers_pure [of 10 "''b''" "limiter 5 1000" 10 "''a''"]
  by (simp add: limiter_def canMakeRequest_def getRemainingRequests_def)

text \<open>With \<open>maxRequests = -1\<close> the answer for an unknown identifier is \<open>-1\<close>.\<close>

theorem getRemainingRequests_negative:
  "fst (getRemainingRequests 0 ''a'' (limiter (- 1) 1000)) = - 1
   \<and> fst (getRemainingRequests 0 ''a'' (limiter (- 1) 1000)) < 0"
  by (simp add: limiter_def getRemainingRequests_def)

subsection \<open>Pagination\<close>

lemma slice_nonneg:
  assumes "0 \<le> c" "0 \<le> l"
  shows "slice xs (JInt c) (JInt (c + l)) = take (nat l) (drop (nat c) xs)"
proof (cases "c \<ge> int (length xs)")
  case True
  then show ?thesis using assms by (simp add: slice_def relativeIndex_def Let_def)
next
  case False
  then have "nat (min (c + l) (int (length xs))) - nat c = min (nat l) (length xs - nat c)"
    using assms by (auto simp: min_def)
  then show ?thesis using assms False
    by (simp add: slice_def relativeIndex_def Let_def min_def)
qed

lemma filter_enumerate_interval:
  "map snd (filter (\<lambda>(i, x). a \<le> i \<and> i < b) (enumerate n xs))
     = take (b - max a n) (drop (a - n) xs)"
proof (induction xs arbitrary: n)
  case Nil
  then show ?case by simp
next
  case (Cons x xs)
  show ?case
  proof (cases "a = Suc n")
    case True
    then show ?thesis using Cons.IH [of "Suc n"] by (simp add: take_Cons' drop_Cons' max_def)
  next
    case False
    then show ?thesis by (auto simp: Cons.IH take_Cons' drop_Cons' max_def)
  qed
qed

lemma intervalSlice_nonneg:
  assumes "0 \<le> c" "0 \<le> l"
  shows "intervalSlice xs c l = take (nat l) (drop (nat c) xs)"
proof -
  have "(\<lambda>(i, x). c \<le> int i \<and> int i < c + l) = (\<lambda>(i::nat, x::'a). nat c \<le> i \<and> i < nat (c + l))"
    using assms by (auto simp: fun_eq_iff)
  then have "intervalSlice xs c l = take (nat (c + l) - max (nat c) 0) (drop (nat c - 0) xs)"
    unfolding intervalSlice_def by (simp only: filter_enumerate_interval)
  also have "nat (c + l) - max (nat c) 0 = nat l" using assms by simp
  finally show ?thesis by simp
qed

lemma sortTokens_volume_desc:
  "sorted_wrt (\<lambda>a b. volume_sol a \<ge> volume_sol b) (sortTokens ts ''volume'' ''desc'')"
proof -
  have "sorted (map (\<lambda>t. - volume_sol t) (sort_key (\<lambda>t. - volume_sol t) ts))"
    by (rule sorted_sort_key)
  then show ?thesis
    by (simp add: sortTokens_def sortValue_def sorted_map)
qed

lemma sortTokens_set: "set (sortTokens ts sb ord) = set ts \<and> length (sortTokens ts sb ord) = length ts"
  by (simp add: sortTokens_def)


lemma paginate_page:
  assumes "startIndex (cursor q) = JInt c" and "0 \<le> c"
    and "orDefault (limit q) (JInt 30) = JInt l" and "0 \<le> l"
  shows "data (paginate tokens q) = take (nat l) (drop (nat c) (filteredTokens tokens q))"
    and "nextCursor (pagination (paginate tokens q))
           = (if c + l < int (length (filteredTokens tokens q)) then Some (toString (c + l)) else None)"
  using assms by (simp_all add: paginate_def Let_def slice_nonneg)

lemma filteredTokens_page_query [simp]:
  "filteredTokens tokens (q\<lparr>limit := x, cursor := y\<rparr>) = filteredTokens tokens q"
  by (simp add: filteredTokens_def)

lemma startIndex_5: "startIndex (Some ''5'') = JInt 5"
  by (simp add: startIndex_def parseInt_def isWhiteSpace_def isDigit_def digitValue_def)

lemma toString_5: "toString 5 = ''5''"
  by (simp add: toString_def digitsOf.simps)

lemma two_pages:
  "data (paginate tokens (q\<lparr>limit := Some (JInt 5), cursor := None\<rparr>))
     @ data (paginate tokens (q\<lparr>limit := Some (JInt 5), cursor := Some ''5''\<rparr>))
   = take 10 (filteredTokens tokens q)"
proof -
  have p1: "data (paginate tokens (q\<lparr>limit := Some (JInt 5), cursor := None\<rparr>))
              = take 5 (filteredTokens tokens q)"
    using paginate_page(1) [of "q\<lparr>limit := Some (JInt 5), cursor := None\<rparr>" 0 5 tokens]
    by (simp add: startIndex_def)
  have p2: "data (paginate tokens (q\<lparr>limit := Some (JInt 5), cursor := Some ''5''\<rparr>))
              = take 5 (drop 5 (filteredTokens tokens q))"
    using paginate_page(1) [of "q\<lparr>limit := Some (JInt 5), cursor := Some ''5''\<rparr>" 5 5 tokens]
    by (simp add: startIndex_5)
  have "take 5 xs @ take 5 (drop 5 xs) = take 10 xs" for xs :: "Token list"
    using take_add [of 5 5 xs] by simp
  then show ?thesis by (simp add: p1 p2)
qed

lemma first_page_cursor:
  "nextCursor (pagination (paginate tokens (q\<lparr>limit := Some (JInt 5), cursor := None\<rparr>)))
     = (if 5 < length (filteredTokens tokens q) then Some ''5'' else None)"
  using paginate_page(2) [of "q\<lparr>limit := Some (JInt 5), cursor := None\<rparr>" 0 5 tokens]
  by (simp add: startIndex_def toString_5)

lemma filteredTokens_volume_desc:
  assumes "orDefault (sortBy q) ''volume'' = ''volume''" and "orDefault (order q) ''desc'' = ''desc''"
  shows "sorted_wrt (\<lambda>a b. volume_sol a \<ge> volume_sol b) (filteredTokens tokens q)"
  using assms by (simp add: filteredTokens_def sortTokens_volume_desc)

text \<open>A cursor written by \<open>toString\<close> is read back by \<open>startIndex\<close> as the same offset.\<close>

lemma digit_char:
  assumes "d < 10"
  shows "isDigit (''0123456789'' ! d)" and "digitValue (''0123456789'' ! d) = d"
    and "\<not> isWhiteSpace (''0123456789'' ! d)"
    and "''0123456789'' ! d \<noteq> CHR ''-''" and "''0123456789'' ! d \<noteq> CHR ''+''"
proof -
  have "d = 0 \<or> d = 1 \<or> d = 2 \<or> d = 3 \<or> d = 4 \<or> d = 5 \<or> d = 6 \<or> d = 7 \<or> d = 8 \<or> d = 9"
    using assms by arith
  then show "isDigit (''0123456789'' ! d)" and "digitValue (''0123456789'' ! d) = d"
    and "\<not> isWhiteSpace (''0123456789'' ! d)"
    and "''0123456789'' ! d \<noteq> CHR ''-''" and "''0123456789'' ! d \<noteq> CHR ''+''"
    by (auto simp: isDigit_def digitValue_def isWhiteSpace_def)
qed

lemma digitsOf_digits: "list_all isDigit (digitsOf n)"
  by (induction n rule: digitsOf.induct) (subst digitsOf.simps, simp add: digit_char)

lemma digitsOf_nonempty: "digitsOf n \<noteq> []"
  by (subst digitsOf.simps) simp

lemma digitsOf_value: "foldl (\<lambda>a c. 10 * a + digitValue c) 0 (digitsOf n) = n"
  by (induction n rule: digitsOf.induct) (subst digitsOf.simps, simp add: digit_char)

lemma hd_digitsOf: "isDigit (hd (digitsOf n))"
  using digitsOf_digits [of n] digitsOf_nonempty [of n] by (cases "digitsOf n") simp_all

lemma isDigit_plain:
  "isDigit c \<Longrightarrow> \<not> isWhiteSpace c \<and> c \<noteq> CHR ''-'' \<and> c \<noteq> CHR ''+''"
  by (auto simp: isDigit_def isWhiteSpace_def)

lemma parseInt_digitsOf: "parseInt (digitsOf n) = JInt (int n)"
proof -
  obtain c cs where cs: "digitsOf n = c # cs" using digitsOf_nonempty [of n] by (cases "digitsOf n") auto
  have c: "\<not> isWhiteSpace c \<and> c \<noteq> CHR ''-'' \<and> c \<noteq> CHR ''+''"
    using hd_digitsOf [of n] isDigit_plain by (simp add: cs)
  have t: "takeWhile isDigit (digitsOf n) = digitsOf n"
    using digitsOf_digits [of n] by (simp add: list_all_iff)
  have d: "dropWhile isWhiteSpace (digitsOf n) = digitsOf n" using c by (simp add: cs)
  show ?thesis
    unfolding parseInt_def d Let_def
    using c digitsOf_value [of n] digitsOf_nonempty [of n] t by (simp add: cs)
qed

lemma startIndex_toString:
  "0 \<le> n \<Longrightarrow> startIndex (Some (toString n)) = JInt n"
  by (simp add: startIndex_def toString_def parseInt_digitsOf digitsOf_nonempty)

text \<open>
  Claim C5, as the code has it, for a cursor that parses to an offset \<open>c \<ge> 0\<close> (or is
  missing or empty: \<open>c = 0\<close>) and a limit \<open>l \<ge> 0\<close>. The page is the slice
  \<open>[c, c + l)\<close> of the filtered and sorted list, and \<open>nextCursor\<close> is the decimal string
  of \<open>c + l\<close> when that is below the length of the list and is absent otherwise; that
  string, sent back as the cursor, is read as the offset \<open>c + l\<close>. The
  pages for limit 5 with no cursor and for limit 5 with cursor \<^verbatim>\<open>"5"\<close> are, one after the
  other, the first ten tokens of the list; the first page's \<open>nextCursor\<close> is \<^verbatim>\<open>"5"\<close> when
  more than five tokens exist; and for the sort field volume and the order desc the list
  is in descending order of volume.
\<close>

theorem getFilteredTokens_pages:
  assumes "startIndex (cursor q) = JInt c" and "0 \<le> c"
    and "orDefault (limit q) (JInt 30) = JInt l" and "0 \<le> l"
    and "resolveTokens cs dex jup q = (Inr tokens, cs')"
  shows "\<exists>r. getFilteredTokens cs dex jup q = (Inr r, cs')
           \<and> data r = intervalSlice (filteredTokens tokens q) c l
           \<and> data r = take (nat l) (drop (nat c) (filteredTokens tokens q))
           \<and> nextCursor (pagination r)
               = (if c + l < int (length (filteredTokens tokens q))
                  then Some (toString (c + l)) else None)
           \<and> startIndex (Some (toString (c + l))) = JInt (c + l)
           \<and> data (paginate tokens (q\<lparr>limit := Some (JInt 5), cursor := None\<rparr>))
               @ data (paginate tokens (q\<lparr>limit := Some (JInt 5), cursor := Some ''5''\<rparr>))
             = take 10 (filteredTokens tokens q)
           \<and> nextCursor (pagination (paginate tokens (q\<lparr>limit := Some (JInt 5), cursor := None\<rparr>)))
             = (if 5 < length (filteredTokens tokens q) then Some ''5'' else None)
           \<and> (orDefault (sortBy q) ''volume'' = ''volume'' \<and> orDefault (order q) ''desc'' = ''desc''
                \<longrightarrow> sorted_wrt (\<lambda>a b. volume_sol a \<ge> volume_sol b) (filteredTokens tokens q))"
proof -
  have call: "getFilteredTokens cs dex jup q = (Inr (paginate tokens q), cs')"
    using assms(5) by (simp add: getFilteredTokens_def)
  show ?thesis
    using paginate_page [OF assms(1-4), of tokens] assms(2,4)
    by (simp add: call intervalSlice_nonneg two_pages first_page_cursor filteredTokens_volume_desc
        startIndex_toString)
qed


lemma startIndex_1: "startIndex (Some ''1'') = JInt 1"
  by (simp add: startIndex_def parseInt_def isWhiteSpace_def isDigit_def digitValue_def)

theorem getFilteredTokens_pages_witness:
  "startIndex (cursor (noQuery\<lparr>limit := Some (JInt 1), cursor := Some ''1''\<rparr>)) = JInt 1
   \<and> (0::int) \<le> 1
   \<and> orDefault (limit (noQuery\<lparr>limit := Some (JInt 1), cursor := Some ''1''\<rparr>)) (JInt 30) = JInt 1
   \<and> fst (resolveTokens offlineCache threeTokens failingSource
            (noQuery\<lparr>limit := Some (JInt 1), cursor := Some ''1''\<rparr>))
       = Inr [sampleToken ''So1'' ''A'' 1 10, sampleToken ''So2'' ''B'' 1 30,
              sampleToken ''So3'' ''C'' 1 20]
   \<and> (\<exists>r. fst (getFilteredTokens offlineCache threeTokens failingSource
                 (noQuery\<lparr>limit := Some (JInt 1), cursor := Some ''1''\<rparr>)) = Inr r
          \<and> data r = [sampleToken ''So3'' ''C'' 1 20]
          \<and> nextCursor (pagination r) = Some ''2'')"
proof -
  let ?q = "noQuery\<lparr>limit := Some (JInt 1), cursor := Some ''1''\<rparr>"
  let ?ts = "[sampleToken ''So1'' ''A'' 1 10, sampleToken ''So2'' ''B'' 1 30,
              sampleToken ''So3'' ''C'' 1 20]"
  have a: "startIndex (cursor ?q) = JInt 1" by (simp add: startIndex_1)
  have b: "(0::int) \<le> 1" by simp
  have c: "orDefault (limit ?q) (JInt 30) = JInt 1" by simp
  have d: "resolveTokens offlineCache threeTokens failingSource ?q = (Inr ?ts, offlineCache)"
    by (simp add: resolveTokens_def noQuery_def offlineCache_def threeTokens_def cache_get_def
        cache_set_def CACHE_PREFIX_def)
  have e: "filteredTokens ?ts noQuery = [sampleToken ''So2'' ''B'' 1 30, sampleToken ''So3'' ''C'' 1 20,
              sampleToken ''So1'' ''A'' 1 10]"
    by (simp add: filteredTokens_def noQuery_def applyFilters_def keepToken_def sortTokens_def
        sortValue_def sampleToken_def)
  have f: "toString 2 = ''2''" by (simp add: toString_def digitsOf.simps)
  show ?thesis
    using getFilteredTokens_pages [OF a b c b d] a c d
    by (auto simp: e f)
qed

text \<open>
  The cursor \<^verbatim>\<open>"-1"\<close> with limit 5 on two tokens: \<^verbatim>\<open>slice(-1, 4)\<close> counts the start
  from the end of the list and returns the last token only, while both tokens have
  positions in \<open>[-1, 4)\<close>.
\<close>

theorem negative_cursor_page:
  "startIndex (Some ''-1'') = JInt (- 1)
   \<and> filteredTokens [sampleToken ''So1'' ''A'' 1 20, sampleToken ''So2'' ''B'' 1 10]
        (noQuery\<lparr>limit := Some (JInt 5), cursor := Some ''-1''\<rparr>)
       = [sampleToken ''So1'' ''A'' 1 20, sampleToken ''So2'' ''B'' 1 10]
   \<and> data (paginate [sampleToken ''So1'' ''A'' 1 20, sampleToken ''So2'' ''B'' 1 10]
        (noQuery\<lparr>limit := Some (JInt 5), cursor := Some ''-1''\<rparr>))
       = [sampleToken ''So2'' ''B'' 1 10]
   \<and> intervalSlice [sampleToken ''So1'' ''A'' 1 20, sampleToken ''So2'' ''B'' 1 10] (- 1) 5
       = [sampleToken ''So1'' ''A'' 1 20, sampleToken ''So2'' ''B'' 1 10]
   \<and> data (paginate [sampleToken ''So1'' ''A'' 1 20, sampleToken ''So2'' ''B'' 1 10]
        (noQuery\<lparr>limit := Some (JInt 5), cursor := Some ''-1''\<rparr>))
       \<noteq> intervalSlice [sampleToken ''So1'' ''A'' 1 20, sampleToken ''So2'' ''B'' 1 10] (- 1) 5"
proof -
  have s: "startIndex (Some ''-1'') = JInt (- 1)"
    by (simp add: startIndex_def parseInt_def isWhiteSpace_def isDigit_def digitValue_def)
  have f: "filteredTokens [sampleToken ''So1'' ''A'' 1 20, sampleToken ''So2'' ''B'' 1 10] noQuery
       = [sampleToken ''So1'' ''A'' 1 20, sampleToken ''So2'' ''B'' 1 10]"
    by (simp add: filteredTokens_def noQuery_def applyFilters_def keepToken_def sortTokens_def
        sortValue_def sampleToken_def)
  have d: "data (paginate [sampleToken ''So1'' ''A'' 1 20, sampleToken ''So2'' ''B'' 1 10]
        (noQuery\<lparr>limit := Some (JInt 5), cursor := Some ''-1''\<rparr>))
       = [sampleToken ''So2'' ''B'' 1 10]"
    by (simp add: paginate_def Let_def f s slice_def relativeIndex_def)
  have i: "intervalSlice [sampleToken ''So1'' ''A'' 1 20, sampleToken ''So2'' ''B'' 1 10] (- 1) 5
       = [sampleToken ''So1'' ''A'' 1 20, sampleToken ''So2'' ''B'' 1 10]"
    by (simp add: intervalSlice_def)
  show ?thesis by (simp add: s f d i)
qed

subsection \<open>Classification of changes in a broadcast cycle\<close>

lemma checkPrice_fields:
  "priceUpdates (checkPrice previous (i, t) st)
     = priceUpdates st @ (if \<bar>price_sol t - price_sol previous\<bar> > 0.000000001
                          then [priceEntry previous t] else [])"
  "volumeSpikes (checkPrice previous (i, t) st) = volumeSpikes st"
  "previousTokenData (checkPrice previous (i, t) st) = previousTokenData st"
  "emitted (checkPrice previous (i, t) st) = emitted st"
  by (simp_all add: checkPrice_def priceEntry_def Let_def)

lemma checkVolume_fields:
  "priceUpdates (checkVolume previous (i, t) st) = priceUpdates st"
  "volumeSpikes (checkVolume previous (i, t) st)
     = volumeSpikes st @ (if \<bar>volume_sol t - volume_sol previous\<bar> > 0.000001
                             \<and> js_gt (volumePercent previous t) 20
                          then [spikeEntry previous t] else [])"
  "previousTokenData (checkVolume previous (i, t) st) = previousTokenData st"
  "emitted (checkVolume previous (i, t) st) = emitted st"
  by (simp_all add: checkVolume_def spikeEntry_def volumePercent_def Let_def)

lemma checkVolume_updates:
  "\<bar>volume_sol t - volume_sol previous\<bar> > 0.000001
     \<Longrightarrow> i \<in> set (map fst (updates (checkVolume previous (i, t) st)))"
  by (simp add: checkVolume_def Let_def)

lemma checkVolume_updates_grow:
  "set (updates st) \<subseteq> set (updates (checkVolume previous (i, t) st))"
  by (auto simp: checkVolume_def Let_def)


lemma checkPrice_updates:
  "set (updates st) \<subseteq> set (updates (checkPrice previous (i, t) st))"
  "fst ` set (updates (checkPrice previous (i, t) st)) \<subseteq> insert i (fst ` set (updates st))"
  by (auto simp: checkPrice_def Let_def)

lemma checkVolume_updates_index:
  "fst ` set (updates (checkVolume previous (i, t) st)) \<subseteq> insert i (fst ` set (updates st))"
  by (auto simp: checkVolume_def Let_def)

lemma checkVolume_updates_fresh:
  assumes "\<bar>volume_sol t - volume_sol previous\<bar> > 0.000001"
    and "\<forall>u. (i, u) \<in> set (updates st) \<longrightarrow> u = t"
  shows "(i, t) \<in> set (updates (checkVolume previous (i, t) st))"
  using assms by (auto simp: checkVolume_def Let_def)

lemma checkPrice_updates_own:
  assumes "\<forall>u. (i, u) \<in> set (updates st) \<longrightarrow> u = t"
  shows "\<forall>u. (i, u) \<in> set (updates (checkPrice previous (i, t) st)) \<longrightarrow> u = t"
  using assms by (auto simp: checkPrice_def Let_def)

text \<open>One iteration, for a token with a prior snapshot.\<close>

lemma processToken_known:
  assumes "token_address t \<noteq> []" and "previousTokenData st (token_address t) = Some previous"
  shows "priceUpdates (processToken st (i, t))
           = priceUpdates st @ (if \<bar>price_sol t - price_sol previous\<bar> > 0.000000001
                                then [priceEntry previous t] else [])"
    and "volumeSpikes (processToken st (i, t))
           = volumeSpikes st @ (if \<bar>volume_sol t - volume_sol previous\<bar> > 0.000001
                                   \<and> js_gt (volumePercent previous t) 20
                                then [spikeEntry previous t] else [])"
    and "emitted (processToken st (i, t)) = emitted st"
    and "previousTokenData (processToken st (i, t))
           = (previousTokenData st)(token_address t \<mapsto> t)"
  using assms by (simp_all add: processToken_def Let_def checkPrice_fields checkVolume_fields)

lemma processToken_known_updates:
  assumes "token_address t \<noteq> []" and "previousTokenData st (token_address t) = Some previous"
    and "\<bar>volume_sol t - volume_sol previous\<bar> > 0.000001"
    and "i \<notin> fst ` set (updates st)"
  shows "(i, t) \<in> set (updates (processToken st (i, t)))"
proof -
  have "\<forall>u. (i, u) \<in> set (updates st) \<longrightarrow> u = t"
    using assms(4) by (auto simp: image_iff)
  then have "\<forall>u. (i, u) \<in> set (updates (checkPrice previous (i, t) st)) \<longrightarrow> u = t"
    by (rule checkPrice_updates_own)
  then have "(i, t) \<in> set (updates (checkVolume previous (i, t) (checkPrice previous (i, t) st)))"
    using assms(3) by (intro checkVolume_updates_fresh)
  then show ?thesis using assms(1,2) by (simp add: processToken_def Let_def)
qed

text \<open>Every iteration only appends to the three lists, under the position of its token.\<close>

lemma processToken_grows:
  "\<exists>ps vs. priceUpdates (processToken st obj) = priceUpdates st @ ps
     \<and> volumeSpikes (processToken st obj) = volumeSpikes st @ vs"
  "set (updates st) \<subseteq> set (updates (processToken st obj))"
  "fst ` set (updates (processToken st obj)) \<subseteq> insert (fst obj) (fst ` set (updates st))"
proof -
  obtain i t where obj: "obj = (i, t)" by (cases obj)
  show "\<exists>ps vs. priceUpdates (processToken st obj) = priceUpdates st @ ps
     \<and> volumeSpikes (processToken st obj) = volumeSpikes st @ vs"
    by (simp add: obj processToken_def Let_def checkPrice_fields checkVolume_fields
        split: option.splits)
  show "set (updates st) \<subseteq> set (updates (processToken st obj))"
    using checkPrice_updates(1) checkVolume_updates_grow
    by (fastforce simp: obj processToken_def Let_def split: option.splits)
  show "fst ` set (updates (processToken st obj)) \<subseteq> insert (fst obj) (fst ` set (updates st))"
  proof (cases "token_address t = []")
    case True
    then show ?thesis by (auto simp: obj processToken_def)
  next
    case False
    show ?thesis
    proof (cases "previousTokenData st (token_address t)")
      case None
      then show ?thesis using False by (auto simp: obj processToken_def)
    next
      case (Some previous)
      have "fst ` set (updates (checkVolume previous (i, t) (checkPrice previous (i, t) st)))
              \<subseteq> insert i (fst ` set (updates st))"
        using checkPrice_updates(2) [of previous i t st]
          checkVolume_updates_index [of previous i t "checkPrice previous (i, t) st"]
        by blast
      then show ?thesis using False Some by (simp add: obj processToken_def Let_def)
    qed
  qed
qed

lemma foldl_processToken_grows:
  "\<exists>ps vs. priceUpdates (foldl processToken st objs) = priceUpdates st @ ps
     \<and> volumeSpikes (foldl processToken st objs) = volumeSpikes st @ vs"
  "set (updates st) \<subseteq> set (updates (foldl processToken st objs))"
proof (induction objs arbitrary: st)
  case Nil
  { case 1 show ?case by simp }
  { case 2 show ?case by simp }
next
  case (Cons obj objs)
  { case 1
    obtain ps vs where a: "priceUpdates (processToken st obj) = priceUpdates st @ ps"
      "volumeSpikes (processToken st obj) = volumeSpikes st @ vs"
      using processToken_grows(1) by blast
    obtain ps' vs' where b:
      "priceUpdates (foldl processToken (processToken st obj) objs)
         = priceUpdates (processToken st obj) @ ps'"
      "volumeSpikes (foldl processToken (processToken st obj) objs)
         = volumeSpikes (processToken st obj) @ vs'"
      using Cons.IH(1) by blast
    show ?case by (simp add: a b) }
  { case 2
    show ?case using processToken_grows(2) Cons.IH(2) by fastforce }
qed

lemma foldl_processToken_positions:
  "fst ` set (updates (foldl processToken st (enumerate n xs)))
     \<subseteq> fst ` set (updates st) \<union> {n..<n + length xs}"
proof (induction xs arbitrary: st n)
  case Nil
  then show ?case by simp
next
  case (Cons x xs)
  have step: "foldl processToken st (enumerate n (x # xs))
                = foldl processToken (processToken st (n, x)) (enumerate (Suc n) xs)"
    by simp
  have ih: "fst ` set (updates (foldl processToken (processToken st (n, x)) (enumerate (Suc n) xs)))
          \<subseteq> fst ` set (updates (processToken st (n, x))) \<union> {Suc n..<Suc n + length xs}"
    by (rule Cons.IH)
  have one: "fst ` set (updates (processToken st (n, x))) \<subseteq> insert n (fst ` set (updates st))"
    using processToken_grows(3) [of st "(n, x)"] by simp
  have sub: "{Suc n..<Suc n + length xs} \<subseteq> {n..<n + length (x # xs)}" by auto
  have n: "n \<in> {n..<n + length (x # xs)}" by simp
  show ?case unfolding step using ih one sub n by blast
qed


text \<open>No snapshot is ever stored under the empty address.\<close>

lemma processToken_no_empty_key:
  "[] \<notin> dom (previousTokenData st) \<Longrightarrow> [] \<notin> dom (previousTokenData (processToken st obj))"
  by (cases obj)
    (auto simp: processToken_def Let_def checkPrice_fields checkVolume_fields split: option.splits)

lemma foldl_processToken_no_empty_key:
  "[] \<notin> dom (previousTokenData st)
     \<Longrightarrow> [] \<notin> dom (previousTokenData (foldl processToken st objs))"
  by (induction objs arbitrary: st) (simp_all add: processToken_no_empty_key)

lemma fetchAndBroadcastUpdates_no_empty_key:
  "[] \<notin> dom prev \<Longrightarrow> [] \<notin> dom (snd (fetchAndBroadcastUpdates prev fetched))"
  using foldl_processToken_no_empty_key [of "startCycle prev"]
  by (cases fetched) (simp_all add: fetchAndBroadcastUpdates_def runCycle_def startCycle_def Let_def)

lemma runCycle_split:
  "runCycle prev (pre @ t # post)
     = foldl processToken (processToken (runCycle prev pre) (length pre, t))
         (enumerate (Suc (length pre)) post)"
  by (simp add: runCycle_def enumerate_append_eq)

lemma broadcast_example:
  "fetchAndBroadcastUpdates [''X'' \<mapsto> sampleToken ''X'' ''T'' 1 100]
      (Inr \<lparr>data = [sampleToken ''X'' ''T'' 1 125],
            pagination = \<lparr>nextCursor = None, total = 1, pg_limit = JInt 50\<rparr>\<rparr>)
     = ([tokens_updated [sampleToken ''X'' ''T'' 1 125],
         volume_spike [\<lparr>vs_token_address = ''X'', old_volume = 100, new_volume = 125,
                        spike_percent = Fin 25\<rparr>]],
        [''X'' \<mapsto> sampleToken ''X'' ''T'' 1 125])"
  by (simp add: fetchAndBroadcastUpdates_def runCycle_def startCycle_def processToken_def
      checkPrice_def checkVolume_def Let_def sampleToken_def js_div_def)

text \<open>
  Claim C4. In a cycle over the fetched tokens \<open>pre @ t # post\<close>, started from a snapshot
  map with no entry under the empty address (the map is empty at start and no cycle adds
  such an entry), let \<open>previous\<close> be the snapshot of \<open>t\<close> when the loop reaches \<open>t\<close>. Then
  the iteration of \<open>t\<close> appends to the price updates the entry of \<open>t\<close> exactly when
  \<open>|new price - old price| > 1e-9\<close>, and nothing otherwise; it appends to the volume
  spikes the entry of \<open>t\<close> exactly when \<open>|new volume - old volume| > 1e-6\<close> and the
  percent change exceeds 20, and nothing otherwise; the later iterations only append to
  both lists; and a volume change above \<open>1e-6\<close> puts \<open>t\<close> into the batch sent as
  \<^verbatim>\<open>tokens_updated\<close>. For the snapshot (price 1, volume 100) and the reading
  (price 1, volume 125) the cycle emits the batch and one volume spike of 25 percent,
  and no price update.
\<close>

theorem broadcast_classification:
  assumes "[] \<notin> dom prev"
    and "previousTokenData (runCycle prev pre) (token_address t) = Some previous"
  shows "priceUpdates (runCycle prev (pre @ [t]))
           = priceUpdates (runCycle prev pre)
             @ (if \<bar>price_sol t - price_sol previous\<bar> > 0.000000001
                then [priceEntry previous t] else [])
       \<and> volumeSpikes (runCycle prev (pre @ [t]))
           = volumeSpikes (runCycle prev pre)
             @ (if \<bar>volume_sol t - volume_sol previous\<bar> > 0.000001
                   \<and> js_gt (volumePercent previous t) 20
                then [spikeEntry previous t] else [])
       \<and> (\<exists>laterPrices laterSpikes.
             priceUpdates (runCycle prev (pre @ t # post))
               = priceUpdates (runCycle prev (pre @ [t])) @ laterPrices
           \<and> volumeSpikes (runCycle prev (pre @ t # post))
               = volumeSpikes (runCycle prev (pre @ [t])) @ laterSpikes)
       \<and> (\<bar>volume_sol t - volume_sol previous\<bar> > 0.000001
            \<longrightarrow> t \<in> set (map snd (updates (runCycle prev (pre @ t # post)))))
       \<and> fetchAndBroadcastUpdates [''X'' \<mapsto> sampleToken ''X'' ''T'' 1 100]
            (Inr \<lparr>data = [sampleToken ''X'' ''T'' 1 125],
                  pagination = \<lparr>nextCursor = None, total = 1, pg_limit = JInt 50\<rparr>\<rparr>)
          = ([tokens_updated [sampleToken ''X'' ''T'' 1 125],
              volume_spike [\<lparr>vs_token_address = ''X'', old_volume = 100, new_volume = 125,
                             spike_percent = Fin 25\<rparr>]],
             [''X'' \<mapsto> sampleToken ''X'' ''T'' 1 125])"
proof -
  let ?st = "runCycle prev pre"
  let ?st' = "processToken ?st (length pre, t)"
  let ?final = "runCycle prev (pre @ t # post)"
  have final: "?final = foldl processToken ?st' (enumerate (Suc (length pre)) post)"
    by (rule runCycle_split)
  have own: "runCycle prev (pre @ [t]) = ?st'"
    using runCycle_split [of prev pre t "[]"] by simp
  have "[] \<notin> dom (previousTokenData ?st)"
    unfolding runCycle_def
    by (rule foldl_processToken_no_empty_key) (simp add: startCycle_def assms(1))
  then have addr: "token_address t \<noteq> []" using assms(2) by auto
  have "fst ` set (updates ?st) \<subseteq> fst ` set (updates (startCycle prev)) \<union> {0..<0 + length pre}"
    unfolding runCycle_def by (rule foldl_processToken_positions)
  then have fresh: "length pre \<notin> fst ` set (updates ?st)"
    by (auto simp: startCycle_def)
  have later: "\<exists>laterPrices laterSpikes.
             priceUpdates ?final = priceUpdates (runCycle prev (pre @ [t])) @ laterPrices
           \<and> volumeSpikes ?final = volumeSpikes (runCycle prev (pre @ [t])) @ laterSpikes"
    unfolding final own by (rule foldl_processToken_grows(1))
  have batch: "t \<in> set (map snd (updates ?final))"
    if "\<bar>volume_sol t - volume_sol previous\<bar> > 0.000001"
  proof -
    have "(length pre, t) \<in> set (updates ?st')"
      using addr assms(2) that fresh by (rule processToken_known_updates)
    then have "(length pre, t) \<in> set (updates ?final)"
      unfolding final using foldl_processToken_grows(2) by blast
    then show ?thesis by force
  qed
  have prices: "priceUpdates (runCycle prev (pre @ [t]))
           = priceUpdates ?st
             @ (if \<bar>price_sol t - price_sol previous\<bar> > 0.000000001
                then [priceEntry previous t] else [])"
    unfolding own using addr assms(2) by (rule processToken_known(1))
  have spikes: "volumeSpikes (runCycle prev (pre @ [t]))
           = volumeSpikes ?st
             @ (if \<bar>volume_sol t - volume_sol previous\<bar> > 0.000001
                   \<and> js_gt (volumePercent previous t) 20
                then [spikeEntry previous t] else [])"
    unfolding own using addr assms(2) by (rule processToken_known(2))
  show ?thesis
    apply (intro conjI impI)
        apply (rule prices)
       apply (rule spikes)
      apply (rule later)
     apply (erule batch)
    apply (rule broadcast_example)
    done
qed

theorem broadcast_classification_witness:
  "[] \<notin> dom [''X'' \<mapsto> sampleToken ''X'' ''T'' 1 100]
   \<and> previousTokenData (runCycle [''X'' \<mapsto> sampleToken ''X'' ''T'' 1 100] [])
        (token_address (sampleToken ''X'' ''T'' 1 125)) = Some (sampleToken ''X'' ''T'' 1 100)
   \<and> priceUpdates (runCycle [''X'' \<mapsto> sampleToken ''X'' ''T'' 1 100] [sampleToken ''X'' ''T'' 1 125]) = []
   \<and> volumeSpikes (runCycle [''X'' \<mapsto> sampleToken ''X'' ''T'' 1 100] [sampleToken ''X'' ''T'' 1 125])
       = [\<lparr>vs_token_address = ''X'', old_volume = 100, new_volume = 125, spike_percent = Fin 25\<rparr>]
   \<and> sampleToken ''X'' ''T'' 1 125
       \<in> set (map snd (updates (runCycle [''X'' \<mapsto> sampleToken ''X'' ''T'' 1 100]
                                  [sampleToken ''X'' ''T'' 1 125])))"
proof -
  have a: "[] \<notin> dom [''X'' \<mapsto> sampleToken ''X'' ''T'' 1 100]" by simp
  have b: "previousTokenData (runCycle [''X'' \<mapsto> sampleToken ''X'' ''T'' 1 100] [])
        (token_address (sampleToken ''X'' ''T'' 1 125)) = Some (sampleToken ''X'' ''T'' 1 100)"
    by (simp add: runCycle_def startCycle_def sampleToken_def)
  show ?thesis
    using broadcast_classification [OF a b, of "[]"] a b
    by (simp add: runCycle_def startCycle_def processToken_def checkPrice_def checkVolume_def
        Let_def sampleToken_def js_div_def)
qed

end
